theory Spec2Isabelle
  imports Complex_Main
begin

section \<open>Python values used by the text-to-audio converter\<close>

text \<open>
  Python strings are modelled as HOL strings: lists of characters whose code points lie
  below 256. Python integers are unbounded, so they are \<^typ>\<open>int\<close>; \<open>len\<close> of a
  string is the number of its characters. Audio samples, which the converter copies and
  never computes with, are real numbers; the one float the converter computes with has a
  model of its own below. Exceptions are values of \<open>py_error\<close>; a function that may
  raise returns \<open>py_error + 'a\<close>, with \<open>Inl\<close> for the exception.
\<close>

datatype py_error =
    ValueError string
  | KeyError string
  | IndexError string
  | OverflowError string
  | RuntimeError string
  | PhonemizerError

definition len :: "string \<Rightarrow> int" where
  "len s = int (length s)"

text \<open>
  \<open>str.isspace\<close> on the code points below 256: TAB to CR, the separators FS to US,
  the space, NEL and the no-break space.
\<close>

definition is_space :: "char \<Rightarrow> bool" where
  "is_space c = (let n = (of_char c :: nat) in
     (9 \<le> n \<and> n \<le> 13) \<or> (28 \<le> n \<and> n \<le> 32) \<or> n = 133 \<or> n = 160)"

text \<open>\<open>s.strip()\<close>: whitespace removed at both ends.\<close>

definition strip :: "string \<Rightarrow> string" where
  "strip s = rev (dropWhile is_space (rev (dropWhile is_space s)))"

text \<open>\<open>s.split()\<close>: the maximal runs of non-whitespace characters, in order.\<close>

fun split_ws_from :: "string \<Rightarrow> string \<Rightarrow> string list" where
  "split_ws_from cur [] = (if cur = [] then [] else [cur])"
| "split_ws_from cur (c # cs) =
     (if is_space c
      then (if cur = [] then split_ws_from [] cs else cur # split_ws_from [] cs)
      else split_ws_from (cur @ [c]) cs)"

definition split_ws :: "string \<Rightarrow> string list" where
  "split_ws s = split_ws_from [] s"

text \<open>
  \<open>s.split(sep)\<close> for a separator: the text is cut at each occurrence of \<open>sep\<close>, found
  from left to right without overlap; empty pieces are kept. (Python raises on an empty
  separator; the converter only ever passes \<open>'. '\<close>, and an empty separator cuts nowhere
  here.)
\<close>

function split_sep_from :: "string \<Rightarrow> string \<Rightarrow> string \<Rightarrow> string list" where
  "split_sep_from sep cur [] = [cur]"
| "split_sep_from sep cur (c # cs) =
     (if sep \<noteq> [] \<and> take (length sep) (c # cs) = sep
      then cur # split_sep_from sep [] (drop (length sep) (c # cs))
      else split_sep_from sep (cur @ [c]) cs)"
  by pat_completeness auto
termination
  by (relation "measure (\<lambda>(sep, cur, s). length s)") auto

definition split_sep :: "string \<Rightarrow> string \<Rightarrow> string list" where
  "split_sep sep s = split_sep_from sep [] s"

text \<open>\<open>sep.join(xs)\<close>.\<close>

fun join :: "string \<Rightarrow> string list \<Rightarrow> string" where
  "join sep [] = []"
| "join sep [x] = x"
| "join sep (x # y # ys) = x @ sep @ join sep (y # ys)"

section \<open>The chunker (app.py)\<close>

text \<open>
  The loops of \<open>_split_sentence\<close> and \<open>split_text_into_chunks\<close> are folds over the
  words and the sentences; the loop state is the triple of the local variables
  (\<open>chunks\<close>, the accumulator, the running size).
\<close>

type_synonym chunk_state = "string list \<times> string list \<times> int"

definition split_sentence_step :: "int \<Rightarrow> string \<Rightarrow> chunk_state \<Rightarrow> chunk_state" where
  "split_sentence_step cs word st =
     (case st of (chunks, temp_chunk, temp_size) \<Rightarrow>
        if temp_size + len word > cs \<and> temp_chunk \<noteq> []
        then (chunks @ [join '' '' temp_chunk @ ''.''], [word], len word)
        else (chunks, temp_chunk @ [word], temp_size + len word + 1))"

definition split_sentence :: "int \<Rightarrow> string \<Rightarrow> string list" where
  "split_sentence cs sentence =
     (case fold (split_sentence_step cs) (split_ws sentence) ([], [], 0) of
        (chunks, temp_chunk, temp_size) \<Rightarrow>
          if temp_chunk \<noteq> [] then chunks @ [join '' '' temp_chunk @ ''.''] else chunks)"

definition split_text_step :: "int \<Rightarrow> string \<Rightarrow> chunk_state \<Rightarrow> chunk_state" where
  "split_text_step cs raw st =
     (case st of (chunks, current_chunk, current_size) \<Rightarrow>
        let sentence = strip raw in
        if sentence = [] then st
        else if len sentence > cs
        then (chunks @ split_sentence cs sentence, current_chunk, current_size)
        else if current_size + len sentence > cs \<and> current_chunk \<noteq> []
        then (chunks @ [join ''. '' current_chunk @ ''.''], [sentence], len sentence)
        else (chunks, current_chunk @ [sentence], current_size + len sentence))"

definition split_text_into_chunks :: "int \<Rightarrow> string \<Rightarrow> string list" where
  "split_text_into_chunks cs text =
     (case fold (split_text_step cs) (split_sep ''. '' text) ([], [], 0) of
        (chunks, current_chunk, current_size) \<Rightarrow>
          if current_chunk \<noteq> [] then chunks @ [join ''. '' current_chunk @ ''.''] else chunks)"

text \<open>
  The preprocessing of \<open>convert\<close>: \<open>' '.join(file.read().strip().split())\<close>.
\<close>

definition normalize_text :: "string \<Rightarrow> string" where
  "normalize_text raw = join '' '' (split_ws (strip raw))"

text \<open>
  The word sequence of a text with the periods left out, which is how the chunks are
  compared with the text they were cut from.
\<close>

definition word_sequence :: "string \<Rightarrow> string list" where
  "word_sequence s = map (filter (\<lambda>c. c \<noteq> CHR ''.'')) (split_ws s)"

text \<open>The property every emitted chunk is checked against: it ends in a period.\<close>

definition period_terminated :: "string list \<Rightarrow> bool" where
  "period_terminated chunks = list_all (\<lambda>c. c \<noteq> [] \<and> last c = CHR ''.'') chunks"

section \<open>The tokenizer (nix/tokenizers/tokenizer_en.py)\<close>

subsection \<open>Interspersion\<close>

text \<open>
  \<open>result[1::2] = lst\<close> is an assignment to an extended slice. The slice
  \<open>start:stop:step\<close> (positive step, bounds already clipped to the list) selects
  \<open>slice_length\<close> positions, \<open>start\<close>, \<open>start + step\<close>, and so on. Python raises
  \<open>ValueError\<close> unless the assigned sequence has exactly that many elements, and
  otherwise stores its elements at these positions in order.
\<close>

definition slice_length :: "nat \<Rightarrow> nat \<Rightarrow> nat \<Rightarrow> nat" where
  "slice_length start stop step =
     (if start < stop then (stop - start - 1) div step + 1 else 0)"

definition slice_indices :: "nat \<Rightarrow> nat \<Rightarrow> nat \<Rightarrow> nat list" where
  "slice_indices start stop step =
     map (\<lambda>k. start + k * step) [0..<slice_length start stop step]"

fun assign_all :: "(nat \<times> 'a) list \<Rightarrow> 'a list \<Rightarrow> 'a list" where
  "assign_all [] r = r"
| "assign_all ((i, v) # ps) r = assign_all ps (r[i := v])"

definition assign_ext_slice :: "'a list \<Rightarrow> nat \<Rightarrow> nat \<Rightarrow> 'a list \<Rightarrow> py_error + 'a list" where
  "assign_ext_slice r start step vs =
     (let idx = slice_indices start (length r) step in
      if length vs = length idx then Inr (assign_all (zip idx vs) r)
      else Inl (ValueError ''attempt to assign sequence to extended slice of another size''))"

definition intersperse :: "int list \<Rightarrow> int \<Rightarrow> py_error + int list" where
  "intersperse lst item = assign_ext_slice (replicate (length lst * 2 + 1) item) 1 2 lst"

subsection \<open>Padding\<close>

text \<open>
  \<open>max\<close> of a list raises \<open>ValueError\<close> on the empty list. \<open>[0] * k\<close> is the empty
  list for a negative \<open>k\<close>.
\<close>

fun py_max :: "int list \<Rightarrow> py_error + int" where
  "py_max [] = Inl (ValueError ''max() arg is an empty sequence'')"
| "py_max (x # xs) = Inr (fold max xs x)"

definition pad_tokens :: "int list list \<Rightarrow> py_error + (int list list \<times> int list)" where
  "pad_tokens tokens =
     (let tokens_lengths = map (\<lambda>token. int (length token)) tokens in
      case py_max tokens_lengths of
        Inl e \<Rightarrow> Inl e
      | Inr max_len \<Rightarrow>
          Inr (map (\<lambda>token. token @ replicate (nat (max_len - int (length token))) 0) tokens,
               tokens_lengths))"

text \<open>
  Notions the statements about the tokenizer are phrased with: the positions and values
  stored by the slice assignment of \<open>_intersperse\<close>, the longest length in a batch, and
  a row padded with zeros to a given length.
\<close>

definition odd_slots :: "int list \<Rightarrow> (nat \<times> int) list" where
  "odd_slots lst = zip (map (\<lambda>k. 2 * k + 1) [0..<length lst]) lst"

definition max_length :: "int list list \<Rightarrow> nat" where
  "max_length tokens = Max (set (map length tokens))"

definition pad_row :: "nat \<Rightarrow> int list \<Rightarrow> int list" where
  "pad_row m token = token @ replicate (m - length token) 0"

subsection \<open>From text to padded tokens\<close>

text \<open>
  \<open>str.lower()\<close> on the code points below 256: the letters A to Z and the accented
  capitals from 192 to 222 (the multiplication sign 215 apart) move up by 32.
\<close>

definition lower_char :: "char \<Rightarrow> char" where
  "lower_char c = (let n = (of_char c :: nat) in
     if (65 \<le> n \<and> n \<le> 90) \<or> (192 \<le> n \<and> n \<le> 222 \<and> n \<noteq> 215)
     then char_of (n + 32) else c)"

definition lower :: "string \<Rightarrow> string" where
  "lower s = map lower_char s"

text \<open>
  The attributes of \<open>NixTokenizerEN\<close>. The tokenizer state is unpickled from a file that
  is not part of the repository, so the vocabulary, the abbreviation rules and the
  whitespace pattern are parameters, and so are the two library functions applied to them:
  \<open>re_sub\<close> stands for Python's \<open>re.sub(pattern, replacement, text)\<close> on patterns of type
  \<open>'p\<close>, and \<open>phonemizer\<close> for \<open>EspeakBackend.phonemize(text, strip=True)\<close>, which
  returns a phoneme string or fails (\<open>None\<close>). The attribute \<open>abbreviations_dict\<close> is
  never read.
\<close>

record 'p nix_tokenizer =
  vocab_dict :: "char \<Rightarrow> int option"
  abbreviations_regex :: "('p \<times> string) list"
  whitespace_regex :: 'p
  re_sub :: "'p \<Rightarrow> string \<Rightarrow> string \<Rightarrow> string"
  phonemizer :: "string \<Rightarrow> string option"

definition expand_abbreviations :: "'p nix_tokenizer \<Rightarrow> string \<Rightarrow> string" where
  "expand_abbreviations tk text =
     fold (\<lambda>(regex, replacement) t. re_sub tk regex replacement t) (abbreviations_regex tk) text"

definition collapse_whitespace :: "'p nix_tokenizer \<Rightarrow> string \<Rightarrow> string" where
  "collapse_whitespace tk text = re_sub tk (whitespace_regex tk) '' '' text"

text \<open>The argument \<open>__call__\<close> passes to the phonemizer for one text.\<close>

definition phonemizer_input :: "'p nix_tokenizer \<Rightarrow> string \<Rightarrow> string" where
  "phonemizer_input tk text = expand_abbreviations tk (lower text)"

definition phonemes_of :: "'p nix_tokenizer \<Rightarrow> string \<Rightarrow> py_error + string" where
  "phonemes_of tk text =
     (case phonemizer tk (phonemizer_input tk text) of
        None \<Rightarrow> Inl PhonemizerError
      | Some ph \<Rightarrow> Inr (collapse_whitespace tk ph))"

text \<open>A list comprehension whose element expression may raise: the first error ends it.\<close>

fun map_err :: "('a \<Rightarrow> py_error + 'b) \<Rightarrow> 'a list \<Rightarrow> py_error + 'b list" where
  "map_err f [] = Inr []"
| "map_err f (x # xs) =
     (case f x of
        Inl e \<Rightarrow> Inl e
      | Inr y \<Rightarrow> (case map_err f xs of Inl e \<Rightarrow> Inl e | Inr ys \<Rightarrow> Inr (y # ys)))"

definition lookup_vocab :: "'p nix_tokenizer \<Rightarrow> char \<Rightarrow> py_error + int" where
  "lookup_vocab tk p = (case vocab_dict tk p of None \<Rightarrow> Inl (KeyError [p]) | Some v \<Rightarrow> Inr v)"

definition tokens_of :: "'p nix_tokenizer \<Rightarrow> string \<Rightarrow> py_error + int list" where
  "tokens_of tk phoneme =
     (case map_err (lookup_vocab tk) phoneme of
        Inl e \<Rightarrow> Inl e
      | Inr ids \<Rightarrow> intersperse ids 0)"

definition tokenizer_call ::
  "'p nix_tokenizer \<Rightarrow> string list \<Rightarrow> py_error + (int list list \<times> int list \<times> string list)" where
  "tokenizer_call tk texts =
     (case map_err (phonemes_of tk) texts of
        Inl e \<Rightarrow> Inl e
      | Inr phonemes \<Rightarrow>
          (case map_err (tokens_of tk) phonemes of
             Inl e \<Rightarrow> Inl e
           | Inr tokens \<Rightarrow>
               (case pad_tokens tokens of
                  Inl e \<Rightarrow> Inl e
                | Inr (padded, tokens_lengths) \<Rightarrow> Inr (padded, tokens_lengths, phonemes))))"

section \<open>The inference wrapper (nix/models/TTS.py)\<close>

text \<open>
  The attributes of \<open>NixTTSInference\<close>. The two ONNX sessions are external: \<open>encoder\<close>
  stands for \<open>encoder.run(None, {"c": c, "c_lengths": c_lengths})[2]\<close> and \<open>decoder\<close> for
  \<open>decoder.run(None, {"z": z})[0]\<close>, a three-dimensional array of samples; either may
  raise, and then returns \<open>Inl\<close> with the text \<open>str(e)\<close> of its exception.
\<close>

record ('p, 'z) nix_tts_inference =
  tokenizer :: "'p nix_tokenizer"
  encoder :: "int list list \<Rightarrow> int list \<Rightarrow> string + 'z"
  decoder :: "'z \<Rightarrow> string + real list list list"

text \<open>\<open>np.array(..., dtype=np.int64)\<close> raises \<open>OverflowError\<close> on an integer outside 64 bits.\<close>

definition fits_int64 :: "int \<Rightarrow> bool" where
  "fits_int64 v = (- (2 ^ 63) \<le> v \<and> v < 2 ^ 63)"

definition int64_vector :: "int list \<Rightarrow> py_error + int list" where
  "int64_vector v =
     (if list_all fits_int64 v then Inr v
      else Inl (OverflowError ''Python int too large to convert to C long''))"

definition int64_matrix :: "int list list \<Rightarrow> py_error + int list list" where
  "int64_matrix c =
     (if list_all (list_all fits_int64) c then Inr c
      else Inl (OverflowError ''Python int too large to convert to C long''))"

definition tokenize ::
  "('p, 'z) nix_tts_inference \<Rightarrow> string
     \<Rightarrow> py_error + (int list list \<times> int list \<times> string list)" where
  "tokenize nx text =
     (if text = [] \<or> strip text = [] then Inl (ValueError ''Input text cannot be empty'')
      else case tokenizer_call (tokenizer nx) [text] of
        Inl e \<Rightarrow> Inl e
      | Inr (c, c_lengths, phonemes) \<Rightarrow>
          (case int64_matrix c of
             Inl e \<Rightarrow> Inl e
           | Inr c64 \<Rightarrow>
               (case int64_vector c_lengths of
                  Inl e \<Rightarrow> Inl e
                | Inr l64 \<Rightarrow> Inr (c64, l64, phonemes))))"

definition vocalize ::
  "('p, 'z) nix_tts_inference \<Rightarrow> int list list \<Rightarrow> int list
     \<Rightarrow> py_error + real list list list" where
  "vocalize nx c c_lengths =
     (case encoder nx c c_lengths of
        Inl cause \<Rightarrow> Inl (RuntimeError (''Audio generation failed: '' @ cause))
      | Inr z \<Rightarrow>
          (case decoder nx z of
             Inl cause \<Rightarrow> Inl (RuntimeError (''Audio generation failed: '' @ cause))
           | Inr xw \<Rightarrow> Inr xw))"

section \<open>The converter (app.py)\<close>

subsection \<open>Floating point\<close>

text \<open>
  A finite Python float (an IEEE 754 binary64 number) is written as a pair of integers
  that denotes \<open>mantissa * 2 ^ exponent\<close>; a float has such a pair with a mantissa below
  \<open>2 ^ 53\<close> in magnitude and an exponent of at least \<open>-1074\<close>. The float 0.1 is
  \<open>Double 3602879701896397 (-55)\<close> and 0.375 is \<open>Double 3 (-3)\<close>. Infinities and NaN
  have no pair: an operation whose result is an infinity returns \<open>None\<close>.
\<close>

datatype double = Double (mantissa: int) (exponent: int)

definition double_value :: "double \<Rightarrow> real" where
  "double_value d = of_int (mantissa d) * 2 powi exponent d"

text \<open>\<open>int.bit_length()\<close> of a non-negative integer.\<close>

function bit_length :: "int \<Rightarrow> int" where
  "bit_length a = (if a \<le> 0 then 0 else 1 + bit_length (a div 2))"
  by pat_completeness auto
termination
  by (relation "measure nat") auto

text \<open>
  \<open>a / 2 ^ s\<close> rounded to the nearest integer, a tie to the even one, for \<open>a \<ge> 0\<close>.
\<close>

definition round_half_even :: "int \<Rightarrow> nat \<Rightarrow> int" where
  "round_half_even a s =
     (if s = 0 then a
      else let q = a div 2 ^ s; r = a mod 2 ^ s; h = 2 ^ (s - 1) in
           if h < r \<or> (r = h \<and> odd q) then q + 1 else q)"

text \<open>
  The float nearest to the exact number \<open>p * 2 ^ k\<close> (round to nearest, ties to even),
  as every IEEE operation returns it: \<open>top\<close> is the exponent of the leading bit of the
  number, \<open>q\<close> the exponent of the last place a float of that size has (52 places below
  the leading bit, and never below \<open>-1074\<close>). The result is \<open>None\<close> when it is an
  infinity, that is when the rounded number reaches \<open>2 ^ 1024\<close>.
\<close>

definition round_to_double :: "int \<Rightarrow> int \<Rightarrow> double option" where
  "round_to_double p k =
     (if p = 0 then Some (Double 0 0)
      else let a = \<bar>p\<bar>;
               top = bit_length a - 1 + k;
               q = max (top - 52) (- 1074)
           in if q \<le> k then (if 1023 < top then None else Some (Double p k))
              else let m = round_half_even a (nat (q - k)) in
                   if 1023 < bit_length m - 1 + q then None
                   else Some (Double (sgn p * m) q))"

text \<open>
  \<open>n * x\<close> for an integer \<open>n\<close> and a float \<open>x\<close>: the integer is converted to the nearest
  float, which raises \<open>OverflowError\<close> when there is none, and the exact product of the
  two floats is rounded.
\<close>

definition int_times_float :: "int \<Rightarrow> double \<Rightarrow> py_error + double option" where
  "int_times_float n x =
     (case round_to_double n 0 of
        None \<Rightarrow> Inl (OverflowError ''int too large to convert to float'')
      | Some y \<Rightarrow> Inr (round_to_double (mantissa y * mantissa x) (exponent y + exponent x)))"

text \<open>\<open>int(x)\<close> of a float truncates towards zero and raises on an infinity.\<close>

definition truncate_double :: "double \<Rightarrow> int" where
  "truncate_double d =
     (if 0 \<le> exponent d then mantissa d * 2 ^ nat (exponent d)
      else sgn (mantissa d) * (\<bar>mantissa d\<bar> div 2 ^ nat (- exponent d)))"

definition py_int :: "double option \<Rightarrow> py_error + int" where
  "py_int x =
     (case x of
        None \<Rightarrow> Inl (OverflowError ''cannot convert float infinity to integer'')
      | Some d \<Rightarrow> Inr (truncate_double d))"

subsection \<open>The conversion\<close>

record ('p, 'z) text_to_speech_converter =
  nix :: "('p, 'z) nix_tts_inference"
  sample_rate :: int
  chunk_size :: int
  silence_duration :: double

text \<open>\<open>xw[0, 0]\<close>: the first row of the first plane, \<open>IndexError\<close> when there is none.\<close>

definition index00 :: "real list list list \<Rightarrow> py_error + real list" where
  "index00 xw =
     (case xw of
        [] \<Rightarrow> Inl (IndexError ''index 0 is out of bounds for axis 0 with size 0'')
      | plane # _ \<Rightarrow>
          (case plane of
             [] \<Rightarrow> Inl (IndexError ''index 0 is out of bounds for axis 1 with size 0'')
           | row # _ \<Rightarrow> Inr row))"

text \<open>\<open>process_chunk\<close> prints a message and re-raises whatever was raised.\<close>

definition process_chunk :: "('p, 'z) text_to_speech_converter \<Rightarrow> string \<Rightarrow> py_error + real list" where
  "process_chunk cv text =
     (case tokenize (nix cv) text of
        Inl e \<Rightarrow> Inl e
      | Inr (c, c_length, phonemes) \<Rightarrow>
          (case vocalize (nix cv) c c_length of
             Inl e \<Rightarrow> Inl e
           | Inr xw \<Rightarrow> index00 xw))"

text \<open>
  \<open>np.zeros(k)\<close> raises \<open>ValueError\<close> for a negative \<open>k\<close>. \<open>np.concatenate\<close> raises
  \<open>ValueError\<close> on an empty list of arrays.
\<close>

definition np_zeros :: "int \<Rightarrow> py_error + real list" where
  "np_zeros k =
     (if k < 0 then Inl (ValueError ''negative dimensions are not allowed'')
      else Inr (replicate (nat k) 0))"

definition np_concatenate :: "real list list \<Rightarrow> py_error + real list" where
  "np_concatenate arrays =
     (if arrays = [] then Inl (ValueError ''need at least one array to concatenate'')
      else Inr (concat arrays))"

text \<open>The argument of \<open>np.zeros\<close>: \<open>int(self.sample_rate * self.silence_duration)\<close>.\<close>

definition silence_samples :: "('p, 'z) text_to_speech_converter \<Rightarrow> py_error + int" where
  "silence_samples cv =
     (case int_times_float (sample_rate cv) (silence_duration cv) of
        Inl e \<Rightarrow> Inl e
      | Inr product \<Rightarrow> py_int product)"

text \<open>
  The loop of \<open>convert\<close> over the chunks, with \<open>audio_chunks\<close> as its state; an exception
  of \<open>process_chunk\<close> leaves the loop.
\<close>

fun convert_loop ::
  "('p, 'z) text_to_speech_converter \<Rightarrow> real list \<Rightarrow> string list \<Rightarrow> real list list
     \<Rightarrow> py_error + real list list" where
  "convert_loop cv silence [] audio_chunks = Inr audio_chunks"
| "convert_loop cv silence (chunk # rest) audio_chunks =
     (case process_chunk cv chunk of
        Inl e \<Rightarrow> Inl e
      | Inr audio_chunk \<Rightarrow> convert_loop cv silence rest (audio_chunks @ [audio_chunk, silence]))"

text \<open>
  \<open>convert\<close>, from the contents of the input file to the samples handed to
  \<open>wavfile.write\<close>. Opening, reading and writing the files are outside the model. The
  handler around the body prints the exception and raises it again, so the exception of
  the body is the exception of \<open>convert\<close>.
\<close>

definition convert :: "('p, 'z) text_to_speech_converter \<Rightarrow> string \<Rightarrow> py_error + real list" where
  "convert cv file_contents =
     (let input_text = normalize_text file_contents;
          chunks = split_text_into_chunks (chunk_size cv) input_text
      in case silence_samples cv of
           Inl e \<Rightarrow> Inl e
         | Inr k \<Rightarrow>
             (case np_zeros k of
                Inl e \<Rightarrow> Inl e
              | Inr silence \<Rightarrow>
                  (case convert_loop cv silence chunks [] of
                     Inl e \<Rightarrow> Inl e
                   | Inr audio_chunks \<Rightarrow> np_concatenate audio_chunks)))"

section \<open>A concrete configuration for the scenarios\<close>

text \<open>
  A fragment of Python's regular expressions, enough for the abbreviation scenario: a
  pattern is a sequence of literal characters and dots (a dot matches any character but
  the newline), compiled with or without \<open>re.IGNORECASE\<close>; the replacement contains no
  backslash, so it is inserted as it is. \<open>re.sub\<close> scans the text from the left and
  replaces each match, continuing after it; the empty pattern matches before every
  character and at the end.
\<close>

datatype pat_atom = Lit char | AnyChar

type_synonym simple_pattern = "bool \<times> pat_atom list"

fun atom_matches :: "bool \<Rightarrow> pat_atom \<Rightarrow> char \<Rightarrow> bool" where
  "atom_matches ignorecase (Lit p) c = (if ignorecase then lower_char p = lower_char c else p = c)"
| "atom_matches ignorecase AnyChar c = (c \<noteq> CHR 0x0A)"

fun matches_at :: "bool \<Rightarrow> pat_atom list \<Rightarrow> string \<Rightarrow> bool" where
  "matches_at ignorecase [] s = True"
| "matches_at ignorecase (a # as) [] = False"
| "matches_at ignorecase (a # as) (c # cs) =
     (atom_matches ignorecase a c \<and> matches_at ignorecase as cs)"

fun sub_scan :: "bool \<Rightarrow> pat_atom list \<Rightarrow> string \<Rightarrow> nat \<Rightarrow> string \<Rightarrow> string" where
  "sub_scan ignorecase atoms repl skip [] = []"
| "sub_scan ignorecase atoms repl (Suc skip) (c # cs) = sub_scan ignorecase atoms repl skip cs"
| "sub_scan ignorecase atoms repl 0 (c # cs) =
     (if matches_at ignorecase atoms (c # cs)
      then repl @ sub_scan ignorecase atoms repl (length atoms - 1) cs
      else c # sub_scan ignorecase atoms repl 0 cs)"

definition simple_sub :: "simple_pattern \<Rightarrow> string \<Rightarrow> string \<Rightarrow> string" where
  "simple_sub pat repl s =
     (case pat of (ignorecase, atoms) \<Rightarrow>
        if atoms = [] then repl @ concat (map (\<lambda>c. c # repl) s)
        else sub_scan ignorecase atoms repl 0 s)"

definition lit :: "string \<Rightarrow> pat_atom list" where
  "lit s = map Lit s"

text \<open>
  A tokenizer with the given abbreviation rules. Its phonemizer returns the text it is
  given, so the phonemes the tokenizer returns show what the phonemizer received; every
  character is in the vocabulary, with its code point as token; the whitespace pattern is
  a pair of spaces.
\<close>

definition scenario_tokenizer :: "(simple_pattern \<times> string) list \<Rightarrow> simple_pattern nix_tokenizer" where
  "scenario_tokenizer rules =
     \<lparr> vocab_dict = (\<lambda>c. Some (int (of_char c))),
       abbreviations_regex = rules,
       whitespace_regex = (False, lit [CHR 0x20, CHR 0x20]),
       re_sub = simple_sub,
       phonemizer = Some \<rparr>"

text \<open>
  A converter around it: the encoder hands the tokens on, the decoder returns one sample
  of value 1 for every token.
\<close>

definition scenario_converter ::
  "int \<Rightarrow> int \<Rightarrow> double \<Rightarrow> (simple_pattern, int list list) text_to_speech_converter" where
  "scenario_converter rate chunk duration =
     \<lparr> nix = \<lparr> tokenizer = scenario_tokenizer [],
                encoder = (\<lambda>c c_lengths. Inr c),
                decoder = (\<lambda>z. Inr [[map (\<lambda>t. 1) (concat z)]]) \<rparr>,
       sample_rate = rate,
       chunk_size = chunk,
       silence_duration = duration \<rparr>"

section \<open>Properties of the chunker\<close>

lemma fold_invariant:
  assumes "P s" and "\<And>x t. P t \<Longrightarrow> P (f x t)"
  shows "P (fold f xs s)"
  using assms(1) by (induction xs arbitrary: s) (simp_all add: assms(2))

lemma period_terminated_append:
  "period_terminated (xs @ ys) = (period_terminated xs \<and> period_terminated ys)"
  by (simp add: period_terminated_def)

lemma period_terminated_single: "period_terminated [s @ ''.'']"
  by (simp add: period_terminated_def)

lemma split_sentence_step_terminated:
  "period_terminated (fst st) \<Longrightarrow> period_terminated (fst (split_sentence_step cs w st))"
  by (cases st)
     (simp add: split_sentence_step_def period_terminated_append period_terminated_single)

lemma split_sentence_terminated: "period_terminated (split_sentence cs sentence)"
proof -
  have "period_terminated (fst (fold (split_sentence_step cs) (split_ws sentence) ([], [], 0)))"
    by (rule fold_invariant)
       (simp add: period_terminated_def, rule split_sentence_step_terminated)
  then show ?thesis
    by (cases "fold (split_sentence_step cs) (split_ws sentence) ([], [], 0)")
       (simp add: split_sentence_def period_terminated_append period_terminated_single)
qed

lemma split_text_step_terminated:
  "period_terminated (fst st) \<Longrightarrow> period_terminated (fst (split_text_step cs raw st))"
  by (cases st)
     (simp add: split_text_step_def Let_def period_terminated_append period_terminated_single
        split_sentence_terminated)

lemma split_text_terminated: "period_terminated (split_text_into_chunks cs input)"
proof -
  have "period_terminated (fst (fold (split_text_step cs) (split_sep ''. '' input) ([], [], 0)))"
    by (rule fold_invariant)
       (simp add: period_terminated_def, rule split_text_step_terminated)
  then show ?thesis
    by (cases "fold (split_text_step cs) (split_sep ''. '' input) ([], [], 0)")
       (simp add: split_text_into_chunks_def period_terminated_append period_terminated_single)
qed

text \<open>
  Claim C10. Every chunk returned by \<open>split_text_into_chunks\<close>, whether flushed from the
  sentence accumulator or produced by \<open>_split_sentence\<close>, is a non-empty string whose
  last character is a period, for every chunk size and every input text.
\<close>

theorem chunks_end_with_period:
  "\<forall>c \<in> set (split_text_into_chunks cs input). c \<noteq> [] \<and> last c = CHR ''.''"
  using split_text_terminated [of cs input]
  by (simp add: period_terminated_def list_all_iff)

theorem chunks_end_with_period_witness:
  "''One. Two.'' \<in> set (split_text_into_chunks 50 ''One. Two'')
   \<and> ''One. Two.'' \<noteq> [] \<and> last ''One. Two.'' = CHR ''.''"
proof -
  have mem: "''One. Two.'' \<in> set (split_text_into_chunks 50 ''One. Two'')"
    by code_simp
  from chunks_end_with_period [of 50 "''One. Two''"] mem
  have "''One. Two.'' \<noteq> [] \<and> last ''One. Two.'' = CHR ''.''"
    by blast
  with mem show ?thesis by blast
qed

text \<open>
  Claim C3. The scenario of the specification: the text \<open>Hello world. This is a test.\<close>
  with chunk size 50. Splitting on \<open>'. '\<close> leaves the final period on the last fragment
  (\<open>This is a test.\<close>), and the flush appends another one: the single chunk returned
  ends in two periods, not in one.
\<close>

theorem hello_world_scenario:
  "split_text_into_chunks 50 ''Hello world. This is a test.''
     = [''Hello world. This is a test..'']"
  by code_simp

text \<open>
  Claim C1. A short sentence followed by a sentence longer than the chunk size: the pieces
  of the long sentence are appended to the output at once, while the short sentence stays
  in the accumulator and is flushed only at the end, together with the sentence that
  follows the long one. The chunks do not come out in document order: their words,
  periods left out, start with \<open>This sentence\<close>, and the words of the text start with
  \<open>Short intro\<close>.
\<close>

theorem oversized_sentence_overtakes_accumulator:
  "split_text_into_chunks 50 (normalize_text
      ''Short intro. This sentence is deliberately written to be longer than fifty characters. The end.'')
     = [''This sentence is deliberately written to be longer.'',
        ''than fifty characters.'',
        ''Short intro. The end..'']
   \<and> concat (map word_sequence (split_text_into_chunks 50 (normalize_text
      ''Short intro. This sentence is deliberately written to be longer than fifty characters. The end.'')))
     = [''This'', ''sentence'', ''is'', ''deliberately'', ''written'', ''to'', ''be'', ''longer'',
        ''than'', ''fifty'', ''characters'', ''Short'', ''intro'', ''The'', ''end'']
   \<and> word_sequence (normalize_text
      ''Short intro. This sentence is deliberately written to be longer than fifty characters. The end.'')
     = [''Short'', ''intro'', ''This'', ''sentence'', ''is'', ''deliberately'', ''written'', ''to'',
        ''be'', ''longer'', ''than'', ''fifty'', ''characters'', ''The'', ''end'']"
  by code_simp

text \<open>
  Claim C2. Two sentences of 25 characters each, no word longer than 6 characters, chunk
  size 50: the running size counts 25 + 25 = 50 and leaves out the two characters of the
  joining \<open>'. '\<close>, so both sentences are packed into one chunk of 53 characters, 52
  without the appended period.
\<close>

theorem joined_chunk_exceeds_chunk_size:
  "split_text_into_chunks 50 ''The quick brown fox jumps. Over the lazy dog it ran.''
     = [''The quick brown fox jumps. Over the lazy dog it ran..'']
   \<and> length ''The quick brown fox jumps. Over the lazy dog it ran..'' - 1 = 52
   \<and> list_all (\<lambda>w. len w \<le> 50)
        (split_ws ''The quick brown fox jumps. Over the lazy dog it ran.'')"
  by code_simp

text \<open>
  The word splitter exceeds the chunk size as well, by one character: after a flush the
  running size restarts at the length of the word, without the separator that the other
  branch adds for every word. Here the second piece has 51 characters without its period,
  and no word has more than 12.
\<close>

lemma word_splitter_exceeds_chunk_size:
  "split_sentence 50
      ''This sentence is deliberately written to be longer than fifty characters and then it simply goes on so''
     = [''This sentence is deliberately written to be longer.'',
        ''than fifty characters and then it simply goes on so.'']
   \<and> length ''than fifty characters and then it simply goes on so'' = 51"
  by code_simp

section \<open>Properties of the tokenizer\<close>

lemma slice_length_odd: "slice_length 1 (n * 2 + 1) 2 = n"
  by (cases n) (simp_all add: slice_length_def)

lemma slice_indices_odd: "slice_indices 1 (n * 2 + 1) 2 = map (\<lambda>k. 2 * k + 1) [0..<n]"
  unfolding slice_indices_def slice_length_odd by simp

lemma length_assign_all: "length (assign_all ps r) = length r"
  by (induction ps r rule: assign_all.induct) simp_all

lemma assign_all_outside:
  "j \<notin> fst ` set ps \<Longrightarrow> assign_all ps r ! j = r ! j"
  by (induction ps r rule: assign_all.induct) auto

lemma assign_all_inside:
  "distinct (map fst ps) \<Longrightarrow> (i, v) \<in> set ps \<Longrightarrow> i < length r \<Longrightarrow> assign_all ps r ! i = v"
proof (induction ps r rule: assign_all.induct)
  case (1 r)
  then show ?case by simp
next
  case (2 j w ps r)
  show ?case
  proof (cases "(i, v) = (j, w)")
    case True
    with 2 have "i \<notin> fst ` set ps" by auto
    then have "assign_all ps (r[j := w]) ! i = r[j := w] ! i"
      by (rule assign_all_outside)
    with True 2(4) show ?thesis by simp
  next
    case False
    with 2 show ?thesis by auto
  qed
qed

lemma intersperse_eq:
  "intersperse lst item = Inr (assign_all (odd_slots lst) (replicate (length lst * 2 + 1) item))"
  unfolding intersperse_def assign_ext_slice_def length_replicate slice_indices_odd odd_slots_def
  by simp

lemma odd_slots_fst: "map fst (odd_slots lst) = map (\<lambda>k. 2 * k + 1) [0..<length lst]"
  by (simp add: odd_slots_def)

lemma odd_slots_distinct: "distinct (map fst (odd_slots lst))"
  by (simp add: odd_slots_fst distinct_map inj_on_def)

lemma odd_slots_mem: "i < length lst \<Longrightarrow> (2 * i + 1, lst ! i) \<in> set (odd_slots lst)"
  unfolding odd_slots_def set_zip by (rule CollectI, rule exI [of _ i]) simp

lemma odd_slots_even: "2 * j \<notin> fst ` set (odd_slots lst)"
proof -
  have "fst ` set (odd_slots lst) = set (map fst (odd_slots lst))" by simp
  also have "\<dots> = (\<lambda>k. 2 * k + 1) ` {0..<length lst}" by (simp add: odd_slots_fst)
  finally show ?thesis by (auto, presburger)
qed

text \<open>
  The helper \<open>_intersperse\<close> with the padding token 0, as \<open>__call__\<close> invokes it: for a
  list of \<open>n\<close> tokens it raises nothing and returns a list of length \<open>2n + 1\<close> that holds
  the \<open>i\<close>-th token at index \<open>2i + 1\<close> and 0 at every even index.
\<close>

lemma intersperse_layout:
  "\<exists>r. intersperse lst 0 = Inr r \<and> length r = 2 * length lst + 1
     \<and> (\<forall>i < length lst. r ! (2 * i + 1) = lst ! i)
     \<and> (\<forall>j. 2 * j < length r \<longrightarrow> r ! (2 * j) = 0)"
proof -
  let ?r = "assign_all (odd_slots lst) (replicate (length lst * 2 + 1) (0::int))"
  have len: "length ?r = 2 * length lst + 1"
    by (simp add: length_assign_all)
  have odd: "?r ! (2 * i + 1) = lst ! i" if "i < length lst" for i
    using odd_slots_distinct odd_slots_mem [OF that]
    by (rule assign_all_inside) (use that in simp)
  have even: "?r ! (2 * j) = 0" if "2 * j < length ?r" for j
  proof -
    from that have "2 * j < length lst * 2 + 1"
      by (simp add: length_assign_all)
    then have "replicate (length lst * 2 + 1) (0::int) ! (2 * j) = 0"
      by (rule nth_replicate)
    moreover have "?r ! (2 * j) = replicate (length lst * 2 + 1) (0::int) ! (2 * j)"
      using odd_slots_even by (rule assign_all_outside)
    ultimately show ?thesis by (simp only:)
  qed
  from len odd even show ?thesis
    by (simp add: intersperse_eq)
qed

lemma intersperse_layout_example:
  "\<exists>r. intersperse [5, 7] 0 = Inr r \<and> length r = 5
     \<and> r ! 1 = 5 \<and> r ! 3 = 7 \<and> r ! 0 = 0 \<and> r ! 2 = 0 \<and> r ! 4 = 0"
proof -
  from intersperse_layout [of "[5, 7]"] obtain r where
    r: "intersperse [5, 7] 0 = Inr r" and len: "length r = 5"
    and odd: "\<And>i. i < 2 \<Longrightarrow> r ! (2 * i + 1) = [5, 7] ! i"
    and even: "\<And>j. 2 * j < length r \<Longrightarrow> r ! (2 * j) = 0"
    by auto
  from odd [of 0] odd [of 1] have "r ! 1 = 5" "r ! 3 = 7" by simp_all
  moreover from even [of 0] even [of 1] even [of 2] len
  have "r ! 0 = 0" "r ! 2 = 0" "r ! 4 = 0" by simp_all
  ultimately show ?thesis using r len by blast
qed

lemma py_max_lengths:
  assumes "tokens \<noteq> []"
  shows "py_max (map (\<lambda>token. int (length token)) tokens) = Inr (int (max_length tokens))"
proof -
  from assms obtain t ts where tokens: "tokens = t # ts" by (cases tokens) auto
  have "fold max (map (\<lambda>token. int (length token)) ts) (int (length t))
          = Max (set (int (length t) # map (\<lambda>token. int (length token)) ts))"
    by (rule Max.set_eq_fold [symmetric])
  also have "\<dots> = Max (int ` set (map length (t # ts)))"
    by (simp add: image_image)
  also have "\<dots> = int (Max (set (map length (t # ts))))"
    by (rule mono_Max_commute [symmetric]) (auto simp: mono_def)
  finally show ?thesis by (simp add: tokens max_length_def)
qed

lemma length_le_max_length: "token \<in> set tokens \<Longrightarrow> length token \<le> max_length tokens"
  by (simp add: max_length_def)

lemma pad_tokens_eq:
  assumes "tokens \<noteq> []"
  shows "pad_tokens tokens
     = Inr (map (pad_row (max_length tokens)) tokens, map (\<lambda>token. int (length token)) tokens)"
  by (simp add: pad_tokens_def py_max_lengths [OF assms] pad_row_def nat_diff_distrib'
       flip: of_nat_diff)

lemma pad_row_props:
  assumes "length token \<le> m"
  shows "length (pad_row m token) = m"
    and "take (length token) (pad_row m token) = token"
    and "length token \<le> j \<Longrightarrow> j < m \<Longrightarrow> pad_row m token ! j = 0"
  using assms by (simp_all add: pad_row_def nth_append)

text \<open>
  Claim C5. For a non-empty batch, \<open>_pad_tokens\<close> raises nothing; every returned row has
  the maximum length of the batch; the lengths array holds the length each row had before
  padding, which is at most that maximum; each row starts with its original tokens, and
  every element after them is 0.
\<close>

theorem pad_tokens_invariant:
  assumes "tokens \<noteq> []"
  shows "\<exists>rows lens. pad_tokens tokens = Inr (rows, lens)
     \<and> length rows = length tokens \<and> length lens = length tokens
     \<and> (\<forall>i < length tokens.
            length (rows ! i) = max_length tokens
          \<and> lens ! i = int (length (tokens ! i))
          \<and> lens ! i \<le> int (max_length tokens)
          \<and> take (length (tokens ! i)) (rows ! i) = tokens ! i
          \<and> (\<forall>j. length (tokens ! i) \<le> j \<and> j < max_length tokens \<longrightarrow> rows ! i ! j = 0))"
proof -
  let ?rows = "map (pad_row (max_length tokens)) tokens"
  let ?lens = "map (\<lambda>token. int (length token)) tokens"
  have row: "length (?rows ! i) = max_length tokens
          \<and> ?lens ! i = int (length (tokens ! i))
          \<and> ?lens ! i \<le> int (max_length tokens)
          \<and> take (length (tokens ! i)) (?rows ! i) = tokens ! i
          \<and> (\<forall>j. length (tokens ! i) \<le> j \<and> j < max_length tokens \<longrightarrow> ?rows ! i ! j = 0)"
    if "i < length tokens" for i
  proof -
    from that have "length (tokens ! i) \<le> max_length tokens"
      by (simp add: length_le_max_length)
    with that show ?thesis
      by (simp add: pad_row_props)
  qed
  have "pad_tokens tokens = Inr (?rows, ?lens)"
    using assms by (rule pad_tokens_eq)
  moreover have "length ?rows = length tokens" "length ?lens = length tokens"
    by simp_all
  ultimately show ?thesis
    using row by blast
qed

theorem pad_tokens_invariant_witness:
  "[[0, 1, 0], [0 :: int]] \<noteq> []
   \<and> (\<exists>rows lens. pad_tokens [[0, 1, 0], [0]] = Inr (rows, lens)
        \<and> length rows = 2 \<and> length (rows ! 0) = 3 \<and> length (rows ! 1) = 3
        \<and> lens ! 0 = 3 \<and> lens ! 1 = 1
        \<and> take 1 (rows ! 1) = [0] \<and> rows ! 1 ! 1 = 0 \<and> rows ! 1 ! 2 = 0)"
proof -
  let ?batch = "[[0, 1, 0], [0 :: int]]"
  have ne: "?batch \<noteq> []" by simp
  have m: "max_length ?batch = 3" by (simp add: max_length_def)
  from pad_tokens_invariant [OF ne] obtain rows lens where
    eq: "pad_tokens ?batch = Inr (rows, lens)" and len: "length rows = length ?batch"
    and row: "\<forall>i < length ?batch.
            length (rows ! i) = max_length ?batch
          \<and> lens ! i = int (length (?batch ! i))
          \<and> lens ! i \<le> int (max_length ?batch)
          \<and> take (length (?batch ! i)) (rows ! i) = ?batch ! i
          \<and> (\<forall>j. length (?batch ! i) \<le> j \<and> j < max_length ?batch \<longrightarrow> rows ! i ! j = 0)"
    by blast
  from spec [OF row, of 0] have r0: "length (rows ! 0) = 3" "lens ! 0 = 3"
    by (simp_all add: m)
  from spec [OF row, of 1] have r1: "length (rows ! 1) = 3" "lens ! 1 = 1" "take 1 (rows ! 1) = [0]"
    "\<forall>j. 1 \<le> j \<and> j < 3 \<longrightarrow> rows ! 1 ! j = 0"
    by (simp_all add: m)
  from r1(4) have "rows ! 1 ! 1 = 0" "rows ! 1 ! 2 = 0" by simp_all
  with ne eq len r0 r1 show ?thesis by simp
qed

subsection \<open>The token sequence of a text\<close>

lemma lookup_vocab_Inr: "lookup_vocab tk p = Inr v \<Longrightarrow> vocab_dict tk p = Some v"
  by (simp add: lookup_vocab_def split: option.splits)

lemma map_err_lookup_vocab:
  "map_err (lookup_vocab tk) phoneme = Inr ids \<Longrightarrow>
     length ids = length phoneme
     \<and> (\<forall>i < length phoneme. vocab_dict tk (phoneme ! i) = Some (ids ! i))"
proof (induction phoneme arbitrary: ids)
  case Nil
  then show ?case by simp
next
  case (Cons p ps)
  from Cons.prems obtain v vs where "lookup_vocab tk p = Inr v"
    and vs: "map_err (lookup_vocab tk) ps = Inr vs" and ids: "ids = v # vs"
    by (auto split: sum.splits)
  then have v: "vocab_dict tk p = Some v"
    by (simp add: lookup_vocab_Inr)
  from Cons.IH [OF vs] v ids show ?case
    by (auto simp: nth_Cons split: nat.splits)
qed

lemma tokenizer_call_single:
  assumes "phonemes_of tk text = Inr phoneme" and "tokens_of tk phoneme = Inr r"
  shows "tokenizer_call tk [text] = Inr ([r], [int (length r)], [phoneme])"
proof -
  have "max_length [r] = length r"
    by (simp add: max_length_def)
  then have "pad_tokens [r] = Inr ([r], [int (length r)])"
    by (simp add: pad_tokens_eq pad_row_def)
  with assms show ?thesis
    by (simp add: tokenizer_call_def)
qed

text \<open>
  Claim C4. For a phoneme string whose phonemes are all in the vocabulary, with \<open>ids\<close>
  the list of their \<open>n\<close> mapped tokens, the token sequence the tokenizer produces in
  \<open>__call__\<close> has length \<open>2n + 1\<close>, holds the \<open>i\<close>-th mapped token at index \<open>2i + 1\<close>
  and 0 at every even index; for a single text it is, unpadded, the one row that
  \<open>__call__\<close> returns, with its length beside it.
\<close>

theorem tokenizer_intersperses_tokens:
  assumes "map_err (lookup_vocab tk) phoneme = Inr ids"
  shows "\<exists>r. tokens_of tk phoneme = Inr r
     \<and> length ids = length phoneme
     \<and> (\<forall>i < length phoneme. vocab_dict tk (phoneme ! i) = Some (ids ! i))
     \<and> length r = 2 * length ids + 1
     \<and> (\<forall>i < length ids. r ! (2 * i + 1) = ids ! i)
     \<and> (\<forall>j. 2 * j < length r \<longrightarrow> r ! (2 * j) = 0)
     \<and> (\<forall>text. phonemes_of tk text = Inr phoneme \<longrightarrow>
            tokenizer_call tk [text] = Inr ([r], [int (length r)], [phoneme]))"
proof -
  from intersperse_layout [of ids] obtain r where r: "intersperse ids 0 = Inr r"
    and layout: "length r = 2 * length ids + 1"
      "\<forall>i < length ids. r ! (2 * i + 1) = ids ! i"
      "\<forall>j. 2 * j < length r \<longrightarrow> r ! (2 * j) = 0"
    by blast
  from assms r have t: "tokens_of tk phoneme = Inr r"
    by (simp add: tokens_of_def)
  then have "\<forall>text. phonemes_of tk text = Inr phoneme \<longrightarrow>
               tokenizer_call tk [text] = Inr ([r], [int (length r)], [phoneme])"
    by (simp add: tokenizer_call_single)
  with t layout map_err_lookup_vocab [OF assms] show ?thesis
    by blast
qed

theorem tokenizer_intersperses_tokens_witness:
  "map_err (lookup_vocab (scenario_tokenizer [])) ''hi'' = Inr [104, 105]
   \<and> tokens_of (scenario_tokenizer []) ''hi'' = Inr [0, 104, 0, 105, 0]
   \<and> phonemes_of (scenario_tokenizer []) ''Hi'' = Inr ''hi''
   \<and> tokenizer_call (scenario_tokenizer []) [''Hi''] = Inr ([[0, 104, 0, 105, 0]], [5], [''hi''])"
proof -
  let ?tk = "scenario_tokenizer []"
  have ids: "map_err (lookup_vocab ?tk) ''hi'' = Inr [104, 105]"
    by code_simp
  have ph: "phonemes_of ?tk ''Hi'' = Inr ''hi''"
    by code_simp
  from tokenizer_intersperses_tokens [OF ids] obtain r where
    r: "tokens_of ?tk ''hi'' = Inr r" and len: "length r = 5"
    and odd: "\<forall>i < 2. r ! (2 * i + 1) = [104, 105] ! i"
    and even: "\<forall>j. 2 * j < length r \<longrightarrow> r ! (2 * j) = 0"
    and call: "\<forall>text. phonemes_of ?tk text = Inr ''hi'' \<longrightarrow>
                 tokenizer_call ?tk [text] = Inr ([r], [int (length r)], [''hi''])"
    by auto
  from spec [OF odd, of 0] spec [OF odd, of 1] have "r ! 1 = 104" "r ! 3 = 105"
    by simp_all
  moreover from spec [OF even, of 0] spec [OF even, of 1] spec [OF even, of 2] len
  have "r ! 0 = 0" "r ! 2 = 0" "r ! 4 = 0"
    by simp_all
  ultimately have "r = [0, 104, 0, 105, 0]"
    using len by (simp add: list_eq_iff_nth_eq numeral_eq_Suc less_Suc_eq)
  with r call ph ids show ?thesis
    by simp
qed

section \<open>Properties of the inference wrapper\<close>

lemma map_err_error: "map_err f xs = Inl e \<Longrightarrow> \<exists>x \<in> set xs. f x = Inl e"
  by (induction xs arbitrary: e) (auto split: sum.splits)

lemma intersperse_returns: "\<exists>r. intersperse ids item = Inr r"
  by (simp add: intersperse_eq)

lemma tokens_of_error:
  assumes "tokens_of tk ph = Inl e"
  shows "\<exists>k. e = KeyError k"
proof (cases "map_err (lookup_vocab tk) ph")
  case (Inl e')
  with assms have "e' = e" by (simp add: tokens_of_def)
  with Inl obtain p where "lookup_vocab tk p = Inl e"
    using map_err_error by blast
  then show ?thesis
    by (auto simp: lookup_vocab_def split: option.splits)
next
  case (Inr ids)
  with assms have "intersperse ids 0 = Inl e" by (simp add: tokens_of_def)
  with intersperse_returns [of ids 0] show ?thesis by simp
qed

lemma phonemes_of_error: "phonemes_of tk t = Inl e \<Longrightarrow> e = PhonemizerError"
  by (auto simp: phonemes_of_def split: option.splits)

lemma pad_tokens_single: "\<exists>rows lens. pad_tokens [t] = Inr (rows, lens)"
  by (simp add: pad_tokens_eq)

lemma tokenizer_call_single_error:
  assumes "tokenizer_call tk [text] = Inl e"
  shows "e = PhonemizerError \<or> (\<exists>k. e = KeyError k)"
proof (cases "phonemes_of tk text")
  case (Inl e')
  with assms have "e' = e" by (simp add: tokenizer_call_def)
  with Inl show ?thesis by (simp add: phonemes_of_error)
next
  case ph: (Inr ph)
  show ?thesis
  proof (cases "tokens_of tk ph")
    case (Inl e')
    with assms ph have "e' = e" by (simp add: tokenizer_call_def)
    with Inl show ?thesis using tokens_of_error by blast
  next
    case (Inr t)
    from pad_tokens_single [of t] obtain rows lens where "pad_tokens [t] = Inr (rows, lens)"
      by blast
    with assms ph Inr show ?thesis by (simp add: tokenizer_call_def)
  qed
qed

lemma strip_Nil: "strip [] = []"
  by (simp add: strip_def)

text \<open>
  Claim C8. \<open>tokenize\<close> raises a \<open>ValueError\<close> exactly when its text is empty after
  trimming whitespace. For any other text no \<open>ValueError\<close> is raised, whatever the
  tokenizer configuration: what can still be raised is a failure of the phonemizer, a
  \<open>KeyError\<close> for a phoneme outside the vocabulary, or an \<open>OverflowError\<close> of the array
  conversion.
\<close>

theorem tokenize_validation:
  "(\<exists>msg. tokenize nx text = Inl (ValueError msg)) = (strip text = [])"
proof (cases "strip text = []")
  case True
  then show ?thesis by (simp add: tokenize_def)
next
  case False
  then have ne: "text \<noteq> []" using strip_Nil by auto
  have "tokenize nx text \<noteq> Inl (ValueError msg)" for msg
  proof
    assume err: "tokenize nx text = Inl (ValueError msg)"
    show False
    proof (cases "tokenizer_call (tokenizer nx) [text]")
      case (Inl e)
      with err False ne have "e = ValueError msg" by (simp add: tokenize_def)
      with tokenizer_call_single_error [OF Inl] show False by auto
    next
      case (Inr res)
      obtain c l ph where "res = (c, l, ph)" by (cases res) auto
      with err False ne Inr show False
        by (auto simp: tokenize_def int64_matrix_def int64_vector_def
            split: sum.splits if_splits)
    qed
  qed
  with False show ?thesis by simp
qed

section \<open>Properties of the converter\<close>

lemma truncate_double_floor:
  assumes "0 \<le> mantissa d"
  shows "truncate_double d = \<lfloor>double_value d\<rfloor>"
proof (cases "0 \<le> exponent d")
  case True
  then have "double_value d = of_int (mantissa d * 2 ^ nat (exponent d))"
    by (simp add: double_value_def power_int_def)
  with True show ?thesis
    by (simp add: truncate_double_def del: of_int_mult of_int_power)
next
  case False
  then have "double_value d = of_int (mantissa d) / of_int (2 ^ nat (- exponent d))"
    by (simp add: double_value_def power_int_def field_simps)
  then have "\<lfloor>double_value d\<rfloor> = mantissa d div 2 ^ nat (- exponent d)"
    by (simp only: floor_divide_of_int_eq)
  with False assms show ?thesis
    by (cases "mantissa d = 0") (simp_all add: truncate_double_def)
qed

lemma double_value_nonneg: "0 \<le> double_value d \<longleftrightarrow> 0 \<le> mantissa d"
proof -
  have "0 < (2::real) powi exponent d"
    by (rule zero_less_power_int) simp
  then show ?thesis
    unfolding double_value_def by (simp only: zero_le_mult_iff of_int_0_le_iff of_int_le_0_iff) linarith
qed

lemma silence_samples_floor:
  assumes "int_times_float (sample_rate cv) (silence_duration cv) = Inr (Some p)"
    and "0 \<le> double_value p"
  shows "silence_samples cv = Inr \<lfloor>double_value p\<rfloor>"
  using assms
  by (simp add: silence_samples_def py_int_def truncate_double_floor double_value_nonneg)

lemma convert_loop_all_ok:
  assumes "\<forall>c \<in> set chunks. process_chunk cv c = Inr (audio c)"
  shows "convert_loop cv silence chunks acc
           = Inr (acc @ concat (map (\<lambda>c. [audio c, silence]) chunks))"
  using assms by (induction chunks arbitrary: acc) simp_all

lemma concat_audio_silence:
  "concat (concat (map (\<lambda>c. [f c, s]) xs)) = concat (map (\<lambda>c. f c @ s) xs)"
  by (induction xs) simp_all

lemma length_audio_silence:
  "length (concat (map (\<lambda>c. f c @ s) xs)) = (\<Sum>c\<leftarrow>xs. length (f c)) + length xs * length s"
  by (induction xs) simp_all

lemma convert_all_ok:
  assumes chunks: "split_text_into_chunks (chunk_size cv) (normalize_text file_contents) = chunks"
    and ne: "chunks \<noteq> []"
    and ok: "\<forall>c \<in> set chunks. process_chunk cv c = Inr (audio c)"
    and s: "silence_samples cv = Inr k" "0 \<le> k"
  shows "convert cv file_contents
           = Inr (concat (map (\<lambda>c. audio c @ replicate (nat k) 0) chunks))"
proof -
  let ?silence = "replicate (nat k) (0::real)"
  from s have z: "np_zeros k = Inr ?silence"
    by (simp add: np_zeros_def)
  have loop: "convert_loop cv ?silence chunks []
                = Inr (concat (map (\<lambda>c. [audio c, ?silence]) chunks))"
    using convert_loop_all_ok [OF ok, of ?silence "[]"] by simp
  from ne have "concat (map (\<lambda>c. [audio c, ?silence]) chunks) \<noteq> []"
    by (cases chunks) simp_all
  then have "np_concatenate (concat (map (\<lambda>c. [audio c, ?silence]) chunks))
               = Inr (concat (map (\<lambda>c. audio c @ ?silence) chunks))"
    by (simp add: np_concatenate_def concat_audio_silence)
  with z loop chunks s(1) show ?thesis
    by (simp add: convert_def)
qed

text \<open>
  Claim C6, amended. When the conversion has \<open>n \<ge> 1\<close> chunks, every chunk is synthesized
  and the float product \<open>sample_rate * silence_duration\<close> is finite and not negative, the
  samples \<open>convert\<close> writes are \<open>audio_1, silence, ..., audio_n, silence\<close>, with an all-zero
  silence after every chunk including the last; their number is the sum of the audio
  lengths plus \<open>n * s\<close>, where \<open>s\<close> is the float product rounded down to an integer, as
  \<open>int\<close> truncates it, and not rounded to the nearest integer.
\<close>

theorem convert_assembles_waveform:
  assumes "split_text_into_chunks (chunk_size cv) (normalize_text file_contents) = chunks"
    and "chunks \<noteq> []"
    and "\<forall>c \<in> set chunks. process_chunk cv c = Inr (audio c)"
    and "int_times_float (sample_rate cv) (silence_duration cv) = Inr (Some product)"
    and "0 \<le> double_value product"
  shows "convert cv file_contents
           = Inr (concat (map (\<lambda>c. audio c @ replicate (nat \<lfloor>double_value product\<rfloor>) 0) chunks))
       \<and> length (concat (map (\<lambda>c. audio c @ replicate (nat \<lfloor>double_value product\<rfloor>) (0::real))
                             chunks))
           = (\<Sum>c\<leftarrow>chunks. length (audio c)) + length chunks * nat \<lfloor>double_value product\<rfloor>"
proof -
  from assms(4,5) have "silence_samples cv = Inr \<lfloor>double_value product\<rfloor>"
    by (rule silence_samples_floor)
  moreover from assms(5) have "0 \<le> \<lfloor>double_value product\<rfloor>"
    by simp
  ultimately show ?thesis
    using convert_all_ok [OF assms(1-3)] by (simp add: length_audio_silence)
qed

lemma scenario_chunks:
  "split_text_into_chunks 4 (normalize_text ''Hi. Yo. Ok'') = [''Hi. Yo.'', ''Ok.'']"
  "split_text_into_chunks 50 (normalize_text ''Hi'') = [''Hi.'']"
  by code_simp+

lemma scenario_process_chunk:
  "process_chunk (scenario_converter rate chunk duration) ''Hi. Yo.'' = Inr (replicate 15 1)"
  "process_chunk (scenario_converter rate chunk duration) ''Ok.'' = Inr (replicate 7 1)"
  "process_chunk (scenario_converter rate chunk duration) ''Hi.'' = Inr (replicate 7 1)"
  by code_simp+

lemma scenario_products:
  "int_times_float 10 (Double 3 (- 3)) = Inr (Some (Double 30 (- 3)))"
  "int_times_float 22050 (Double 3 (- 3)) = Inr (Some (Double 66150 (- 3)))"
  by code_simp+

lemma scenario_values:
  "double_value (Double 3 (- 3)) = 3 / 8"
  "double_value (Double 30 (- 3)) = 15 / 4"
  "double_value (Double 66150 (- 3)) = 33075 / 4"
  by (simp_all add: double_value_def power_int_minus)

theorem convert_assembles_waveform_witness:
  "split_text_into_chunks (chunk_size (scenario_converter 10 4 (Double 3 (- 3))))
      (normalize_text ''Hi. Yo. Ok'') = [''Hi. Yo.'', ''Ok.'']
   \<and> process_chunk (scenario_converter 10 4 (Double 3 (- 3))) ''Hi. Yo.'' = Inr (replicate 15 1)
   \<and> process_chunk (scenario_converter 10 4 (Double 3 (- 3))) ''Ok.'' = Inr (replicate 7 1)
   \<and> int_times_float (sample_rate (scenario_converter 10 4 (Double 3 (- 3))))
        (silence_duration (scenario_converter 10 4 (Double 3 (- 3)))) = Inr (Some (Double 30 (- 3)))
   \<and> double_value (Double 30 (- 3)) = 15 / 4
   \<and> convert (scenario_converter 10 4 (Double 3 (- 3))) ''Hi. Yo. Ok''
        = Inr (replicate 15 1 @ replicate 3 0 @ replicate 7 1 @ replicate 3 0)
   \<and> length (replicate 15 (1::real) @ replicate 3 0 @ replicate 7 1 @ replicate 3 0)
        = (15 + 7) + 2 * 3"
proof -
  let ?cv = "scenario_converter 10 4 (Double 3 (- 3))"
  let ?audio = "\<lambda>c. if c = ''Ok.'' then replicate 7 (1::real) else replicate 15 1"
  have c: "split_text_into_chunks (chunk_size ?cv) (normalize_text ''Hi. Yo. Ok'')
             = [''Hi. Yo.'', ''Ok.'']"
    by (simp add: scenario_converter_def scenario_chunks)
  have p: "\<forall>c \<in> set [''Hi. Yo.'', ''Ok.'']. process_chunk ?cv c = Inr (?audio c)"
    by (simp add: scenario_process_chunk)
  have f: "int_times_float (sample_rate ?cv) (silence_duration ?cv) = Inr (Some (Double 30 (- 3)))"
    by (simp add: scenario_converter_def scenario_products)
  have v: "0 \<le> double_value (Double 30 (- 3))" "\<lfloor>double_value (Double 30 (- 3))\<rfloor> = 3"
    by (simp_all add: scenario_values)
  from convert_assembles_waveform [OF c _ p f v(1)]
  have "convert ?cv ''Hi. Yo. Ok''
          = Inr (replicate 15 1 @ replicate 3 0 @ replicate 7 1 @ replicate 3 0)"
    by (simp add: v(2))
  with c f show ?thesis
    by (simp add: scenario_process_chunk scenario_values)
qed

text \<open>
  The claim as stated, with \<open>s = round(sample_rate * silence_duration)\<close>, fails at a
  sample rate of 22050 Hz and a silence of 0.375 s, where the float product is exactly
  8268.75: for a text of one chunk with 7 audio samples the waveform has 7 + 8268 = 8275
  samples, and the claim gives 7 + 8269 = 8276.
\<close>

theorem silence_count_is_truncated_counterexample:
  "process_chunk (scenario_converter 22050 50 (Double 3 (- 3))) ''Hi.'' = Inr (replicate 7 1)
   \<and> int_times_float (sample_rate (scenario_converter 22050 50 (Double 3 (- 3))))
        (silence_duration (scenario_converter 22050 50 (Double 3 (- 3))))
        = Inr (Some (Double 66150 (- 3)))
   \<and> map_sum id length (convert (scenario_converter 22050 50 (Double 3 (- 3))) ''Hi'') = Inr 8275
   \<and> length (replicate 7 (1::real)) + 1 * nat (round (double_value (Double 66150 (- 3)))) = 8276"
proof -
  let ?cv = "scenario_converter 22050 50 (Double 3 (- 3))"
  have c: "split_text_into_chunks (chunk_size ?cv) (normalize_text ''Hi'') = [''Hi.'']"
    by (simp add: scenario_converter_def scenario_chunks)
  have p: "\<forall>c \<in> set [''Hi.'']. process_chunk ?cv c = Inr ((\<lambda>c. replicate 7 1) c)"
    by (simp add: scenario_process_chunk)
  have f: "int_times_float (sample_rate ?cv) (silence_duration ?cv) = Inr (Some (Double 66150 (- 3)))"
    by (simp add: scenario_converter_def scenario_products)
  have s: "silence_samples ?cv = Inr 8268"
    using silence_samples_floor [OF f] by (simp add: scenario_values)
  have "convert ?cv ''Hi'' = Inr (replicate 7 1 @ replicate 8268 0)"
    using convert_all_ok [OF c _ p s] by simp
  then have "map_sum id length (convert ?cv ''Hi'') = Inr 8275"
    by simp
  moreover have "nat (round (double_value (Double 66150 (- 3)))) = 8269"
    by (simp add: scenario_values round_def)
  ultimately show ?thesis
    using f by (simp add: scenario_process_chunk)
qed

lemma split_text_empty: "split_text_into_chunks cs [] = []"
  by (simp add: split_text_into_chunks_def split_sep_def split_text_step_def strip_def)

lemma normalize_blank:
  assumes "list_all is_space raw"
  shows "normalize_text raw = []"
proof -
  from assms have blank: "dropWhile is_space raw = []"
    by (simp add: list_all_iff)
  show ?thesis
    unfolding normalize_text_def strip_def split_ws_def blank by simp
qed

lemma convert_blank:
  assumes "list_all is_space raw" and "silence_samples cv = Inr k" and "0 \<le> k"
  shows "convert cv raw = Inl (ValueError ''need at least one array to concatenate'')"
  using assms(2,3)
  by (simp add: convert_def normalize_blank [OF assms(1)] split_text_empty np_zeros_def
      np_concatenate_def)

lemma default_silence_samples:
  "(case int_times_float 22050 (Double 3602879701896397 (- 55)) of
      Inl e \<Rightarrow> Inl e | Inr product \<Rightarrow> py_int product) = Inr 2205"
  by code_simp

text \<open>
  Claim C7. A file that holds a space and a newline, with the default sample rate 22050
  and the default silence duration (the float 0.1, which is
  \<open>3602879701896397 * 2 ^ -55\<close>) and any chunk size, tokenizer and models: the text
  normalizes to the empty string and the chunker returns no chunk, as the claim says;
  \<open>convert\<close> then reaches \<open>np.concatenate\<close> with an empty list and ends in the
  \<open>ValueError\<close> numpy raises there, which the handler prints and raises again.
\<close>

theorem blank_input_reaches_concatenate:
  "normalize_text [CHR 0x20, CHR 0x0A] = []
   \<and> split_text_into_chunks cs (normalize_text [CHR 0x20, CHR 0x0A]) = []
   \<and> convert (cv\<lparr>sample_rate := 22050, silence_duration := Double 3602879701896397 (- 55)\<rparr>)
        [CHR 0x20, CHR 0x0A]
       = Inl (ValueError ''need at least one array to concatenate'')"
proof -
  have blank: "list_all is_space [CHR 0x20, CHR 0x0A]"
    by (simp add: is_space_def)
  have "silence_samples (cv\<lparr>sample_rate := 22050,
          silence_duration := Double 3602879701896397 (- 55)\<rparr>) = Inr 2205"
    by (simp add: silence_samples_def default_silence_samples)
  then have "convert (cv\<lparr>sample_rate := 22050,
          silence_duration := Double 3602879701896397 (- 55)\<rparr>) [CHR 0x20, CHR 0x0A]
       = Inl (ValueError ''need at least one array to concatenate'')"
    by (rule convert_blank [OF blank]) simp
  with blank show ?thesis
    by (simp only: normalize_blank split_text_empty simp_thms)
qed

text \<open>
  The product is rounded as a float before it is truncated: with a silence of 0.3 s (the
  float \<open>5404319552844595 * 2 ^ -54\<close>) at 22050 Hz the exact product lies just below
  6615 and the float product is 6615, which is the number of silence samples.
\<close>

lemma silence_samples_of_rounded_product:
  "silence_samples (cv\<lparr>sample_rate := 22050,
      silence_duration := Double 5404319552844595 (- 54)\<rparr>) = Inr 6615
   \<and> \<lfloor>22050 * double_value (Double 5404319552844595 (- 54))\<rfloor> = 6614"
proof -
  have "(case int_times_float 22050 (Double 5404319552844595 (- 54)) of
           Inl e \<Rightarrow> Inl e | Inr product \<Rightarrow> py_int product) = Inr 6615"
    by code_simp
  moreover have "\<lfloor>22050 * double_value (Double 5404319552844595 (- 54))\<rfloor> = 6614"
    by (simp add: double_value_def power_int_minus)
  ultimately show ?thesis
    by (simp add: silence_samples_def)
qed

section \<open>The abbreviation scenario\<close>


lemma mr_rule_readings:
  "phonemizer_input (scenario_tokenizer [((False, [Lit CHR ''M'', Lit CHR ''r'', AnyChar]), ''Mister'')])
      ''Mr. Smith'' = ''mr. smith''
   \<and> phonemizer_input (scenario_tokenizer [((True, [Lit CHR ''M'', Lit CHR ''r'', AnyChar]), ''Mister'')])
      ''Mr. Smith'' = ''Mister smith''"
  by code_simp




end
